theory Spec2Isabelle
  imports Main "HOL-Library.Word"
begin

unbundle bit_operations_syntax

section \<open>The DRM device manager (src/DrmDevice.cpp)\<close>

text \<open>
  A shallow embedding of \<^verbatim>\<open>DrmDevice\<close>: the object is a record of its members, every
  member function takes the object and returns its result together with the object
  as it is afterwards. \<^verbatim>\<open>uint32_t\<close> and \<^verbatim>\<open>unsigned\<close> are 32-bit words.
\<close>

type_synonym u32 = "32 word"

subsection \<open>Collaborators that are not in DrmDevice.cpp\<close>

text \<open>
  Modelled from the spec: \<^verbatim>\<open>DrmDisplay\<close> (DrmDisplay.h and DrmDisplay.cpp are not among
  the sources). The spec gives an output entity a stable identifier, a connection
  state and an internal/external classification; the three fields are what
  \<^verbatim>\<open>id()\<close>, \<^verbatim>\<open>connected()\<close> and \<^verbatim>\<open>internal()\<close> answer at the moment of the call.
\<close>

record DrmDisplay =
  id_of :: u32
  connected :: bool
  internal :: bool

text \<open>
  The result of \<^verbatim>\<open>drmModeGetResources\<close> (libdrm), as far as \<^verbatim>\<open>initialize\<close> reads it:
  the arrays \<^verbatim>\<open>crtcs[0..count_crtcs)\<close> and \<^verbatim>\<open>connectors[0..count_connectors)\<close> as lists.
\<close>

record drmModeRes =
  crtcs :: "u32 list"
  connectors :: "u32 list"

text \<open>
  \<^verbatim>\<open>mDisplays\<close> is a map from connector identifier to the owned display. It is kept
  as the list of its entries in iteration order, because \<^verbatim>\<open>enable\<close> and
  \<^verbatim>\<open>reportExternal\<close> iterate over it. A map holds one entry per key:
  \<open>distinct (map fst ds)\<close> is the well-formedness of a registry.
\<close>

type_synonym registry = "(u32 \<times> DrmDisplay) list"

text \<open>
  The environment of the object, what the code calls outside this file:
  \<^item> \<open>drmModeGetResources\<close>: the kernel's answer for a file descriptor, \<open>None\<close> for the
    null pointer;
  \<^item> \<open>make_display\<close>: \<^verbatim>\<open>std::make_unique<DrmDisplay>(*this, connector)\<close>;
  \<^item> \<open>display_update\<close>: \<^verbatim>\<open>DrmDisplay::update()\<close>, the display's own refresh;
  \<^item> \<open>slot\<close>: the declaration of \<^verbatim>\<open>mDisplays\<close> is in DrmDevice.h, which is not among
    the sources, so the place a new key takes in the container's iteration order is left
    open: for a new key and the keys present, in iteration order, \<open>slot\<close> is the index
    at which the entry goes (an index beyond the end means the end).
\<close>

record env =
  drmModeGetResources :: "int \<Rightarrow> drmModeRes option"
  make_display :: "u32 \<Rightarrow> DrmDisplay"
  display_update :: "DrmDisplay \<Rightarrow> DrmDisplay"
  slot :: "u32 \<Rightarrow> u32 list \<Rightarrow> nat"

subsection \<open>The object\<close>

text \<open>
  The members of \<^verbatim>\<open>DrmDevice\<close> (declared in DrmDevice.h). \<^verbatim>\<open>mUsedCrtcs\<close> is a 32-bit
  mask, as wide as the \<^verbatim>\<open>int\<close> masks \<^verbatim>\<open>1 << pipe\<close> it is combined with. \<^verbatim>\<open>mCallback\<close> is a pointer: \<open>None\<close>
  is \<^verbatim>\<open>nullptr\<close>, \<open>Some a\<close> the address \<open>a\<close>. \<^verbatim>\<open>mHotplugThread\<close> is reduced to whether it
  is enabled.
\<close>

record DrmDevice =
  mFd :: int
  mCrtcs :: "u32 list"
  mUsedCrtcs :: u32
  mDisplays :: registry
  mPrimaryDisplay :: u32
  mCallback :: "nat option"
  mHotplugThread :: bool

text \<open>
  \<^verbatim>\<open>DrmDevice::DrmDevice(int fd)\<close>: the vector and the map start empty.
  Modelled from the spec: the initial values of \<^verbatim>\<open>mUsedCrtcs\<close>, \<^verbatim>\<open>mPrimaryDisplay\<close> and
  \<^verbatim>\<open>mCallback\<close> are set in DrmDevice.h; no engine is in use, no primary is designated
  (0) and the callback is absent.
\<close>

definition newDrmDevice :: "int \<Rightarrow> DrmDevice" where
  "newDrmDevice fd =
     \<lparr>mFd = fd, mCrtcs = [], mUsedCrtcs = 0, mDisplays = [], mPrimaryDisplay = 0,
      mCallback = None, mHotplugThread = False\<rparr>"

subsection \<open>Reserving and freeing scan-out engines\<close>

text \<open>
  \<^verbatim>\<open>1 << pipe\<close> shifts an \<^verbatim>\<open>int\<close>. C++ defines the result only for a shift count below
  the width of the type, 32; for a larger count the behaviour of the program is
  undefined, which the model makes a value of its own. For \<open>pipe = 31\<close> the result is
  the bit pattern \<open>0x80000000\<close>.
\<close>

datatype fault = UndefinedShift

definition shl1 :: "u32 \<Rightarrow> fault + u32" where
  "shl1 pipe = (if unat pipe < 32 then Inr (push_bit (unat pipe) 1) else Inl UndefinedShift)"

text \<open>
  \<^verbatim>\<open>
  uint32_t DrmDevice::reserveCrtc(unsigned pipe) {
      auto mask = 1 << pipe;
      if (pipe < mCrtcs.size() && !(mUsedCrtcs & mask)) {
          mUsedCrtcs |= mask;
          return mCrtcs[pipe];
      }
      return 0;
  }
  \<close>
  The mask (\<open>mask_p\<close> below) is computed before the bounds check.
\<close>

definition reserveCrtc :: "u32 \<Rightarrow> DrmDevice \<Rightarrow> fault + (u32 \<times> DrmDevice)" where
  "reserveCrtc pipe d =
     (case shl1 pipe of
        Inl e \<Rightarrow> Inl e
      | Inr mask_p \<Rightarrow>
          if unat pipe < length (mCrtcs d) \<and> mUsedCrtcs d AND mask_p = 0
          then Inr (mCrtcs d ! unat pipe, d\<lparr>mUsedCrtcs := mUsedCrtcs d OR mask_p\<rparr>)
          else Inr (0, d))"

text \<open>
  \<^verbatim>\<open>
  void DrmDevice::freeCrtc(unsigned pipe) {
      if (pipe < mCrtcs.size()) {
          mUsedCrtcs &= ~(1 << pipe);
      }
  }
  \<close>
  Here the shift is evaluated only inside the bounds check.
\<close>

definition freeCrtc :: "u32 \<Rightarrow> DrmDevice \<Rightarrow> fault + DrmDevice" where
  "freeCrtc pipe d =
     (if unat pipe < length (mCrtcs d)
      then (case shl1 pipe of
              Inl e \<Rightarrow> Inl e
            | Inr mask_p \<Rightarrow> Inr (d\<lparr>mUsedCrtcs := mUsedCrtcs d AND NOT mask_p\<rparr>))
      else Inr d)"






definition used_in_bounds :: "DrmDevice \<Rightarrow> bool" where
  "used_in_bounds d \<longleftrightarrow>
     list_all (\<lambda>i. bit (mUsedCrtcs d) i \<longrightarrow> i < length (mCrtcs d)) [0..<32]"

subsection \<open>Looking up a connected display\<close>

text \<open>
  \<^verbatim>\<open>
  DrmDisplay* DrmDevice::getConnectedDisplay(uint32_t connector) {
      auto i = mDisplays.find(connector);
      if (i == mDisplays.end()) {
          return nullptr;
      }
      auto display = i->second.get();
      return display->connected() ? display : nullptr;
  }
  \<close>
  The pointer returned is \<open>None\<close> for \<^verbatim>\<open>nullptr\<close> and \<open>Some\<close> of the display it points to.
  The function assigns to no member: the object comes back as it was.
\<close>

definition getConnectedDisplay :: "u32 \<Rightarrow> DrmDevice \<Rightarrow> DrmDisplay option \<times> DrmDevice" where
  "getConnectedDisplay connector d =
     (case find (\<lambda>(c, x). c = connector) (mDisplays d) of
        None \<Rightarrow> (None, d)
      | Some (c, display) \<Rightarrow> (if connected display then Some display else None, d))"

subsection \<open>Initialization\<close>

text \<open>
  \<^verbatim>\<open>mDisplays.insert({connector, display})\<close>: \<^verbatim>\<open>insert\<close> of a standard map adds the entry
  only when the key is not present; an entry already stored under the key stays.
\<close>

definition insert_display :: "env \<Rightarrow> u32 \<Rightarrow> DrmDisplay \<Rightarrow> registry \<Rightarrow> registry" where
  "insert_display k c x ds =
     (if c \<in> set (map fst ds) then ds
      else (let i = slot k c (map fst ds) in take i ds @ (c, x) # drop i ds))"

text \<open>
  \<^verbatim>\<open>
  for (auto i = 0; i < res->count_connectors; ++i) {
      mDisplays.insert({res->connectors[i],
          std::make_unique<DrmDisplay>(*this, res->connectors[i])});
  }
  \<close>
\<close>

fun create_displays :: "env \<Rightarrow> u32 list \<Rightarrow> registry \<Rightarrow> registry" where
  "create_displays k [] ds = ds"
| "create_displays k (c # cs) ds =
     create_displays k cs (insert_display k c (make_display k c) ds)"

text \<open>
  \<^verbatim>\<open>
  bool DrmDevice::initialize() {
      if (mFd < 0)
          return false;
      drm::mode::unique_res_ptr res{drmModeGetResources(mFd)};
      if (!res) {
          PLOG(ERROR) << "Failed to get DRM mode resources";
          return false;
      }
      mCrtcs.assign(res->crtcs, res->crtcs + res->count_crtcs);
      for (...) { ... }
      return true;
  }
  \<close>
\<close>

definition initialize :: "env \<Rightarrow> DrmDevice \<Rightarrow> bool \<times> DrmDevice" where
  "initialize k d =
     (if mFd d < 0 then (False, d)
      else (case drmModeGetResources k (mFd d) of
              None \<Rightarrow> (False, d)
            | Some res \<Rightarrow>
                (True, d\<lparr>mCrtcs := crtcs res,
                          mDisplays := create_displays k (connectors res) (mDisplays d)\<rparr>)))"

subsection \<open>Refreshing, enabling and the deferred report\<close>

text \<open>
  \<^verbatim>\<open>
  void DrmDevice::update() {
      for (auto& p : mDisplays) {
          p.second->update();
      }
  }
  \<close>
\<close>

definition update :: "env \<Rightarrow> DrmDevice \<Rightarrow> DrmDevice" where
  "update k d = d\<lparr>mDisplays := map (\<lambda>(c, x). (c, display_update k x)) (mDisplays d)\<rparr>"

text \<open>
  \<^verbatim>\<open>DrmDisplay::report()\<close> announces the display to the callback. The functions that
  report return the trace of these calls: the registry keys of the displays whose
  \<^verbatim>\<open>report()\<close> ran, in the order of the calls.

  The loop of the second branch of \<^verbatim>\<open>enable\<close>, over the entries from \<^verbatim>\<open>begin()\<close> on:
  \<^verbatim>\<open>
  for (auto i = mDisplays.begin(), end = mDisplays.end(); i != end; ++i) {
      if (i == primary)
          continue; // Primary display is already reported
      auto display = i->second.get();
      if (display->connected()) {
          display->report();
          // Report only one display during initialization on Oreo
          mPrimaryDisplay = display->id();
          break;
      }
  }
  \<close>
  In this branch \<^verbatim>\<open>primary\<close> is \<^verbatim>\<open>end()\<close>, which no \<^verbatim>\<open>i\<close> of the loop equals. The result
  is the trace and the value of \<^verbatim>\<open>mPrimaryDisplay\<close> after the loop; \<open>p\<close> is its value
  before.
\<close>

fun report_first_connected :: "registry \<Rightarrow> u32 \<Rightarrow> u32 list \<times> u32" where
  "report_first_connected [] p = ([], p)"
| "report_first_connected ((c, display) # ds) p =
     (if connected display then ([c], id_of display) else report_first_connected ds p)"

text \<open>
  \<^verbatim>\<open>
  void DrmDevice::enable(DrmCallback *callback) {
      update();
      mCallback = callback;
      auto primary = std::find_if(mDisplays.begin(), mDisplays.end(),
          [] (const auto& pair) {
              return pair.second->connected() && pair.second->internal();
          });
      if (primary != mDisplays.end()) {
          primary->second->report();
          mPrimaryDisplay = primary->second->id();
      } else {
          for (...) { ... }
      }
      mHotplugThread.enable();
  }
  \<close>
\<close>

definition enable :: "env \<Rightarrow> nat option \<Rightarrow> DrmDevice \<Rightarrow> u32 list \<times> DrmDevice" where
  "enable k callback d =
     (let d1 = (update k d)\<lparr>mCallback := callback\<rparr> in
      case find (\<lambda>(c, x). connected x \<and> internal x) (mDisplays d1) of
        Some (c, primary) \<Rightarrow>
          ([c], d1\<lparr>mPrimaryDisplay := id_of primary, mHotplugThread := True\<rparr>)
      | None \<Rightarrow>
          (let (reports, p) = report_first_connected (mDisplays d1) (mPrimaryDisplay d1)
           in (reports, d1\<lparr>mPrimaryDisplay := p, mHotplugThread := True\<rparr>)))"

text \<open>
  \<^verbatim>\<open>
  void DrmDevice::reportExternal() {
      if (!mPrimaryDisplay)
          return;
      for (auto i = mDisplays.begin(), end = mDisplays.end(); i != end; ++i) {
          auto display = i->second.get();
          if (display->id() != mPrimaryDisplay && display->connected()) {
              display->report();
          }
      }
      mPrimaryDisplay = 0;
  }
  \<close>
\<close>

fun report_others :: "u32 \<Rightarrow> registry \<Rightarrow> u32 list" where
  "report_others p [] = []"
| "report_others p ((c, display) # ds) =
     (if id_of display \<noteq> p \<and> connected display
      then c # report_others p ds else report_others p ds)"

definition reportExternal :: "DrmDevice \<Rightarrow> u32 list \<times> DrmDevice" where
  "reportExternal d =
     (if mPrimaryDisplay d = 0 then ([], d)
      else (report_others (mPrimaryDisplay d) (mDisplays d), d\<lparr>mPrimaryDisplay := 0\<rparr>))"

subsection \<open>Examples\<close>

text \<open>
  An environment: the kernel reports three engines and the connectors 9, 7 and again 9
  for file descriptor 3 and fails for any other; the container keeps its keys in
  ascending order; a display starts disconnected, and a refresh finds every display
  connected and display 9 internal.
\<close>

definition env0 :: env where
  "env0 =
     \<lparr>drmModeGetResources =
        (\<lambda>fd. if fd = 3 then Some \<lparr>crtcs = [41, 42, 43], connectors = [9, 7, 9]\<rparr> else None),
      make_display = (\<lambda>c. \<lparr>id_of = c, connected = False, internal = False\<rparr>),
      display_update = (\<lambda>x. x\<lparr>connected := True, internal := (id_of x = 9)\<rparr>),
      slot = (\<lambda>c ks. length (filter (\<lambda>k. k < c) ks))\<rparr>"

definition display :: "u32 \<Rightarrow> bool \<Rightarrow> bool \<Rightarrow> DrmDisplay" where
  "display c is_connected is_internal =
     \<lparr>id_of = c, connected = is_connected, internal = is_internal\<rparr>"

text \<open>The same environment with a refresh that changes no display.\<close>

definition env_idle :: env where
  "env_idle = env0\<lparr>display_update := (\<lambda>x. x)\<rparr>"

definition dev_displays :: "registry \<Rightarrow> DrmDevice" where
  "dev_displays ds = (newDrmDevice 3)\<lparr>mDisplays := ds\<rparr>"

text \<open>
  Registries: one internal display among two connected ones; two connected displays,
  none internal; no display connected.
\<close>

definition displays3 :: registry where
  "displays3 =
     [(7, display 7 True False), (8, display 8 False False), (9, display 9 True True)]"

definition displays_ab :: registry where
  "displays_ab =
     [(7, display 7 True False), (8, display 8 False False), (9, display 9 True False)]"

definition displays_off :: registry where
  "displays_off = [(7, display 7 False False), (9, display 9 False True)]"

text \<open>The object after its first \<open>initialize\<close> and a refresh of its displays.\<close>

definition dev_once :: DrmDevice where
  "dev_once = update env0 (snd (initialize env0 (newDrmDevice 3)))"

text \<open>A later answer of the kernel: one engine, connector 9 again and the new connector 4.\<close>

definition env1 :: env where
  "env1 =
     env0\<lparr>drmModeGetResources := (\<lambda>fd. Some \<lparr>crtcs = [50], connectors = [9, 4]\<rparr>)\<rparr>"

text \<open>Devices with three and with thirty-three engines.\<close>

definition dev3 :: DrmDevice where
  "dev3 = (newDrmDevice 3)\<lparr>mCrtcs := [41, 42, 43], mUsedCrtcs := 1\<rparr>"

definition dev33 :: DrmDevice where
  "dev33 = (newDrmDevice 3)\<lparr>mCrtcs := map of_nat [1..<34]\<rparr>"

text \<open>The thirty-three engines with engine 0 in use.\<close>

definition dev33_used :: DrmDevice where
  "dev33_used = dev33\<lparr>mUsedCrtcs := 1\<rparr>"

section \<open>Properties of the reservation\<close>

subsection \<open>Single bits of a 32-bit mask\<close>

lemma bit_pow2_u32: "bit (2 ^ n :: u32) i \<longleftrightarrow> i = n \<and> n < 32"
  by (auto simp add: bit_exp_iff)

lemma and_pow2_zero: "(w :: u32) AND 2 ^ n = 0 \<longleftrightarrow> \<not> bit w n"
proof
  assume "w AND 2 ^ n = 0"
  then have "\<not> bit (w AND 2 ^ n) n" by simp
  then show "\<not> bit w n"
    by (auto simp add: bit_and_iff bit_pow2_u32 dest: bit_imp_possible_bit)
next
  assume "\<not> bit w n"
  then show "w AND 2 ^ n = 0"
    by (intro bit_eqI) (auto simp add: bit_and_iff bit_pow2_u32)
qed

lemma bit_or_pow2: "bit ((w :: u32) OR 2 ^ n) i \<longleftrightarrow> bit w i \<or> (i = n \<and> n < 32)"
  by (auto simp add: bit_or_iff bit_pow2_u32)

lemma bit_and_not_pow2: "bit ((w :: u32) AND NOT (2 ^ n)) i \<longleftrightarrow> bit w i \<and> i \<noteq> n"
  by (auto simp add: bit_and_iff bit_not_iff bit_pow2_u32 dest: bit_imp_possible_bit)

lemma and_not_pow2_clear: "\<not> bit (w :: u32) n \<Longrightarrow> w AND NOT (2 ^ n) = w"
  by (rule bit_eqI) (auto simp add: bit_and_not_pow2)

subsection \<open>reserveCrtc\<close>

text \<open>
  C1 (as the code has it). For a pool of any size and a pipe index below 32, the width of
  the mask: \<open>reserveCrtc\<close> succeeds exactly when the index is inside the pool and its bit
  of the in-use mask is clear. On success it returns the engine at that position of the
  pool, the bit is set afterwards, every other bit and every other member (the pool
  among them) is as before. Otherwise it returns 0 and the object is unchanged.
\<close>

theorem reserveCrtc_below_width:
  assumes "unat pipe < 32"
  shows "(unat pipe < length (mCrtcs d) \<and> \<not> bit (mUsedCrtcs d) (unat pipe) \<longrightarrow>
            (\<exists>d'. reserveCrtc pipe d = Inr (mCrtcs d ! unat pipe, d')
               \<and> bit (mUsedCrtcs d') (unat pipe)
               \<and> (\<forall>i. i \<noteq> unat pipe \<longrightarrow> bit (mUsedCrtcs d') i = bit (mUsedCrtcs d) i)
               \<and> d' = d\<lparr>mUsedCrtcs := mUsedCrtcs d'\<rparr>))
       \<and> (\<not> (unat pipe < length (mCrtcs d) \<and> \<not> bit (mUsedCrtcs d) (unat pipe)) \<longrightarrow>
            reserveCrtc pipe d = Inr (0, d))"
  using assms by (auto simp add: reserveCrtc_def shl1_def and_pow2_zero bit_or_pow2)

text \<open>
  On the pool \<open>[41, 42, 43]\<close> with engine 0 in use: pipe 1 is reserved, pipe 0 is taken
  and pipe 7 is outside the pool.
\<close>

theorem reserveCrtc_below_width_witness:
  "reserveCrtc 1 dev3 = Inr (42, dev3\<lparr>mUsedCrtcs := 3\<rparr>)
   \<and> reserveCrtc 0 dev3 = Inr (0, dev3)
   \<and> reserveCrtc 7 dev3 = Inr (0, dev3)"
  using reserveCrtc_below_width [of 1 dev3] reserveCrtc_below_width [of 0 dev3]
    reserveCrtc_below_width [of 7 dev3]
  by (simp add: dev3_def newDrmDevice_def reserveCrtc_def shl1_def)

text \<open>
  C1 as stated fails for a pool of 33 engines and pipe 32: the index is inside the pool
  and no engine is in use, but \<^verbatim>\<open>1 << 32\<close> has no defined value and the mask has no bit 32
  to set.
\<close>

theorem reserveCrtc_pipe32_undefined:
  "unat (32 :: u32) < length (mCrtcs dev33)
   \<and> \<not> bit (mUsedCrtcs dev33) (unat (32 :: u32))
   \<and> reserveCrtc 32 dev33 = Inl UndefinedShift"
  by (simp add: reserveCrtc_def shl1_def dev33_def newDrmDevice_def)

subsection \<open>freeCrtc\<close>

text \<open>
  C3 (as the code has it). For every pipe index that is below 32 or outside the pool:
  \<open>freeCrtc\<close> returns normally; for an index inside the pool it leaves the bit of the
  index clear and changes nothing else; for an index outside the pool it changes
  nothing; and when the bit of the index was clear already the object is unchanged.
  For the remaining indices, inside the pool and 32 or more, the shift of the call is
  undefined.
\<close>

theorem freeCrtc_clears:
  "(unat pipe < length (mCrtcs d) \<and> unat pipe < 32 \<longrightarrow>
      (\<exists>d'. freeCrtc pipe d = Inr d'
         \<and> \<not> bit (mUsedCrtcs d') (unat pipe)
         \<and> (\<forall>i. i \<noteq> unat pipe \<longrightarrow> bit (mUsedCrtcs d') i = bit (mUsedCrtcs d) i)
         \<and> d' = d\<lparr>mUsedCrtcs := mUsedCrtcs d'\<rparr>
         \<and> (\<not> bit (mUsedCrtcs d) (unat pipe) \<longrightarrow> d' = d)))
   \<and> (\<not> unat pipe < length (mCrtcs d) \<longrightarrow> freeCrtc pipe d = Inr d)
   \<and> (unat pipe < length (mCrtcs d) \<and> \<not> unat pipe < 32 \<longrightarrow>
        freeCrtc pipe d = Inl UndefinedShift)"
  by (auto simp add: freeCrtc_def shl1_def bit_and_not_pow2 and_not_pow2_clear)

text \<open>
  On the pool \<open>[41, 42, 43]\<close> with engine 0 in use: freeing pipe 0 clears the mask,
  freeing the free pipe 1 and freeing pipe 40, outside the pool, change nothing. On the
  pool of 33 engines the shift of freeing pipe 32 is undefined.
\<close>

theorem freeCrtc_clears_witness:
  "freeCrtc 0 dev3 = Inr (dev3\<lparr>mUsedCrtcs := 0\<rparr>)
   \<and> freeCrtc 1 dev3 = Inr dev3
   \<and> freeCrtc 40 dev3 = Inr dev3
   \<and> freeCrtc 32 dev33 = Inl UndefinedShift"
  using freeCrtc_clears [of 0 dev3] freeCrtc_clears [of 1 dev3] freeCrtc_clears [of 40 dev3]
    freeCrtc_clears [of 32 dev33]
  by (simp add: freeCrtc_def shl1_def dev3_def dev33_def newDrmDevice_def)

text \<open>
  C3 as stated fails for the pool of 33 engines with engine 0 in use and pipe 32. The
  index is inside the pool and its bit counts as clear, so the call should change
  nothing. The call evaluates \<^verbatim>\<open>~(1 << 32)\<close>, a shift that has no defined value; a
  processor that takes the shift count modulo 32 clears bit 0 with it, the bit of
  engine 0.
\<close>

theorem freeCrtc_pipe32_undefined:
  "unat (32 :: u32) < length (mCrtcs dev33_used)
   \<and> \<not> bit (mUsedCrtcs dev33_used) (unat (32 :: u32))
   \<and> bit (mUsedCrtcs dev33_used) 0
   \<and> freeCrtc 32 dev33_used = Inl UndefinedShift"
  by (simp add: freeCrtc_def shl1_def dev33_used_def dev33_def newDrmDevice_def)

subsection \<open>The invariant of the in-use mask\<close>

lemma used_in_bounds_iff:
  "used_in_bounds d \<longleftrightarrow> (\<forall>i. bit (mUsedCrtcs d) i \<longrightarrow> i < length (mCrtcs d))"
proof
  assume b: "used_in_bounds d"
  show "\<forall>i. bit (mUsedCrtcs d) i \<longrightarrow> i < length (mCrtcs d)"
  proof (intro allI impI)
    fix i assume i: "bit (mUsedCrtcs d) i"
    then have "i < 32" by (auto dest: bit_imp_possible_bit)
    with b i show "i < length (mCrtcs d)"
      by (simp add: used_in_bounds_def list_all_iff)
  qed
next
  assume "\<forall>i. bit (mUsedCrtcs d) i \<longrightarrow> i < length (mCrtcs d)"
  then show "used_in_bounds d"
    by (simp add: used_in_bounds_def list_all_iff)
qed


lemma used_in_bounds_unused: "mUsedCrtcs d = 0 \<Longrightarrow> used_in_bounds d"
  by (simp add: used_in_bounds_iff)

text \<open>A reservation sets no bit outside the pool, whatever the mask was before.\<close>

lemma reserveCrtc_sets_inside:
  "reserveCrtc pipe d = Inr (crtc, d') \<Longrightarrow> bit (mUsedCrtcs d') i \<Longrightarrow>
     \<not> bit (mUsedCrtcs d) i \<Longrightarrow> i < length (mCrtcs d)"
  by (auto simp add: reserveCrtc_def shl1_def bit_or_pow2 split: if_splits)









section \<open>Properties of the initialization\<close>

subsection \<open>Inserting into the registry\<close>

lemma keys_insert_display:
  "set (map fst (insert_display k c x ds)) = insert c (set (map fst ds))"
proof (cases "c \<in> set (map fst ds)")
  case True
  then show ?thesis by (auto simp add: insert_display_def)
next
  case False
  have "set (take i ds) \<union> set (drop i ds) = set ds" for i
    by (metis append_take_drop_id set_append)
  then have "fst ` set (take i ds) \<union> fst ` set (drop i ds) = fst ` set ds" for i
    by (metis image_Un)
  with False show ?thesis
    by (auto simp add: insert_display_def Let_def)
qed

lemma distinct_insert_display:
  assumes "distinct (map fst ds)"
  shows "distinct (map fst (insert_display k c x ds))"
proof (cases "c \<in> set (map fst ds)")
  case True
  with assms show ?thesis by (simp add: insert_display_def)
next
  case False
  define i where "i = slot k c (map fst ds)"
  have "distinct (map fst (take i ds) @ map fst (drop i ds))"
    using assms by (simp flip: map_append)
  moreover have "c \<notin> set (map fst (take i ds))" "c \<notin> set (map fst (drop i ds))"
    using False by (auto dest: in_set_takeD in_set_dropD)
  ultimately show ?thesis
    using False by (auto simp add: insert_display_def Let_def i_def)
qed

lemma map_of_insert_display:
  "map_of (insert_display k c x ds) c' =
     (if c' = c \<and> c \<notin> set (map fst ds) then Some x else map_of ds c')"
proof (cases "c \<in> set (map fst ds)")
  case True
  then show ?thesis by (auto simp add: insert_display_def)
next
  case False
  define i where "i = slot k c (map fst ds)"
  have "map_of ds c = None"
    using False by (simp add: map_of_eq_None_iff)
  moreover have "map_of ds = map_of (take i ds @ drop i ds)" by simp
  ultimately have none: "map_of (take i ds) c = None"
    unfolding map_of_append by (simp only: map_add_None)
  have parts: "map_of ds c' = (map_of (drop i ds) ++ map_of (take i ds)) c'"
    by (metis append_take_drop_id map_of_append)
  have "map_of (take i ds @ (c, x) # drop i ds) c'
      = (if c' = c then Some x else map_of ds c')"
    using none by (auto simp add: parts map_add_def split: option.splits)
  with False show ?thesis
    by (simp add: insert_display_def Let_def i_def)
qed

lemma keys_create_displays:
  "set (map fst (create_displays k cs ds)) = set (map fst ds) \<union> set cs"
  by (induction cs arbitrary: ds) (auto simp add: keys_insert_display simp del: set_map)

lemma distinct_create_displays:
  "distinct (map fst ds) \<Longrightarrow> distinct (map fst (create_displays k cs ds))"
  by (induction cs arbitrary: ds) (auto simp add: distinct_insert_display)

lemma map_of_create_displays_old:
  "map_of ds c = Some x \<Longrightarrow> map_of (create_displays k cs ds) c = Some x"
proof (induction cs arbitrary: ds)
  case Nil
  then show ?case by simp
next
  case (Cons a cs)
  from Cons.prems have "c \<in> set (map fst ds)"
    by (auto dest: map_of_SomeD simp add: rev_image_eqI)
  with Cons.prems have "map_of (insert_display k a (make_display k a) ds) c = Some x"
    by (auto simp add: map_of_insert_display)
  then show ?case by (simp add: Cons.IH)
qed

lemma map_of_create_displays_new:
  "c \<in> set cs \<Longrightarrow> c \<notin> set (map fst ds) \<Longrightarrow>
     map_of (create_displays k cs ds) c = Some (make_display k c)"
proof (induction cs arbitrary: ds)
  case Nil
  then show ?case by simp
next
  case (Cons a cs)
  show ?case
  proof (cases "a = c")
    case True
    with Cons.prems have "map_of (insert_display k a (make_display k a) ds) c = Some (make_display k c)"
      by (simp add: map_of_insert_display)
    then show ?thesis by (simp add: map_of_create_displays_old)
  next
    case False
    with Cons.prems have "c \<in> set cs" "c \<notin> set (map fst (insert_display k a (make_display k a) ds))"
      by (auto simp add: keys_insert_display simp del: set_map)
    then show ?thesis by (simp add: Cons.IH del: set_map)
  qed
qed

lemma one_entry_per_key:
  "distinct (map fst ds) \<Longrightarrow> c \<in> set (map fst ds) \<Longrightarrow>
     length (filter (\<lambda>(c', x). c' = c) ds) = 1"
proof (induction ds)
  case Nil
  then show ?case by simp
next
  case (Cons e ds)
  obtain c' x where e: "e = (c', x)" by (cases e)
  show ?case
  proof (cases "c' = c")
    case True
    with Cons.prems e have "c \<notin> fst ` set ds" by simp
    then have "filter (\<lambda>(c', x). c' = c) ds = []"
      by (force simp add: filter_empty_conv)
    with True e show ?thesis by simp
  next
    case False
    with Cons e show ?thesis by auto
  qed
qed

subsection \<open>A successful initialize\<close>

text \<open>
  C4. Whenever \<open>initialize\<close> succeeds on a registry that holds one entry per key, the
  registry afterwards holds exactly one entry under each connector identifier of the
  resource query, its keys are the keys it had and these identifiers (on a new object:
  exactly these identifiers), and the pool is the list of engine identifiers of the
  query, in the order of the query.
\<close>

theorem initialize_populates:
  assumes "initialize k d = (True, d')" and "distinct (map fst (mDisplays d))"
  shows "\<exists>res. drmModeGetResources k (mFd d) = Some res
           \<and> mCrtcs d' = crtcs res
           \<and> (\<forall>c \<in> set (connectors res). length (filter (\<lambda>(c', x). c' = c) (mDisplays d')) = 1)
           \<and> set (map fst (mDisplays d')) = set (map fst (mDisplays d)) \<union> set (connectors res)"
proof -
  from assms(1) obtain res where res: "drmModeGetResources k (mFd d) = Some res"
    and d': "d' = d\<lparr>mCrtcs := crtcs res,
                     mDisplays := create_displays k (connectors res) (mDisplays d)\<rparr>"
    by (auto simp add: initialize_def split: if_splits option.splits)
  have keys: "set (map fst (mDisplays d')) = set (map fst (mDisplays d)) \<union> set (connectors res)"
    by (simp add: d' keys_create_displays del: set_map)
  have dist: "distinct (map fst (mDisplays d'))"
    using assms(2) by (simp add: d' distinct_create_displays)
  have "length (filter (\<lambda>(c', x). c' = c) (mDisplays d')) = 1"
    if "c \<in> set (connectors res)" for c
    using dist by (rule one_entry_per_key) (simp only: keys that UnI2)
  with res keys show ?thesis by (simp add: d')
qed

text \<open>
  The first \<open>initialize\<close> of an object on file descriptor 3: the query names connector
  9 twice, the registry holds the displays 7 and 9 once each.
\<close>

theorem initialize_populates_witness:
  "initialize env0 (newDrmDevice 3) =
     (True, (newDrmDevice 3)\<lparr>mCrtcs := [41, 42, 43],
        mDisplays := [(7, display 7 False False), (9, display 9 False False)]\<rparr>)
   \<and> distinct (map fst (mDisplays (newDrmDevice 3)))
   \<and> length (filter (\<lambda>(c', x). c' = 9)
         [(7 :: u32, display 7 False False), (9, display 9 False False)]) = 1"
  using initialize_populates [of env0 "newDrmDevice 3"]
  by (simp add: initialize_def env0_def newDrmDevice_def insert_display_def display_def)

subsection \<open>A failed initialize\<close>

text \<open>
  C8. If the file descriptor is invalid (negative) or the resource query fails,
  \<open>initialize\<close> returns false and the object is unchanged; on an object as constructed
  the registry and the pool are therefore still empty.
\<close>

theorem initialize_failure:
  assumes "mFd d < 0 \<or> drmModeGetResources k (mFd d) = None"
  shows "initialize k d = (False, d)
     \<and> (d = newDrmDevice (mFd d) \<longrightarrow>
          mDisplays (snd (initialize k d)) = [] \<and> mCrtcs (snd (initialize k d)) = [])"
proof -
  from assms have same: "initialize k d = (False, d)"
    by (auto simp add: initialize_def)
  have "mDisplays d = [] \<and> mCrtcs d = []" if "d = newDrmDevice (mFd d)"
  proof -
    have "mDisplays (newDrmDevice (mFd d)) = [] \<and> mCrtcs (newDrmDevice (mFd d)) = []"
      by (simp add: newDrmDevice_def)
    with that show ?thesis by simp
  qed
  with same show ?thesis by simp
qed

text \<open>
  An object on the invalid descriptor -1, and one on descriptor 4, for which the query
  fails.
\<close>

theorem initialize_failure_witness:
  "initialize env0 (newDrmDevice (- 1)) = (False, newDrmDevice (- 1))
   \<and> initialize env0 (newDrmDevice 4) = (False, newDrmDevice 4)
   \<and> mDisplays (newDrmDevice 4) = [] \<and> mCrtcs (newDrmDevice 4) = []"
  using initialize_failure [of "newDrmDevice (- 1)" env0]
    initialize_failure [of "newDrmDevice 4" env0]
  by (simp add: env0_def newDrmDevice_def)

subsection \<open>A second initialize\<close>

text \<open>
  C9 (as the code has it). A successful \<open>initialize\<close>, the first or a later one, queries
  the kernel and replaces the pool by the engines of this query. Every entry of the
  registry stays as it is, also when the query returns its key again: the display
  constructed for such a connector is not stored. A display constructed for a connector
  that is not yet a key is added under that key.
\<close>

theorem initialize_again_keeps:
  assumes "initialize k d = (True, d')"
  shows "\<exists>res. drmModeGetResources k (mFd d) = Some res
           \<and> mCrtcs d' = crtcs res
           \<and> (\<forall>c x. map_of (mDisplays d) c = Some x \<longrightarrow> map_of (mDisplays d') c = Some x)
           \<and> (\<forall>c \<in> set (connectors res). c \<notin> fst ` set (mDisplays d) \<longrightarrow>
                 map_of (mDisplays d') c = Some (make_display k c))"
proof -
  from assms obtain res where res: "drmModeGetResources k (mFd d) = Some res"
    and d': "d' = d\<lparr>mCrtcs := crtcs res,
                     mDisplays := create_displays k (connectors res) (mDisplays d)\<rparr>"
    by (auto simp add: initialize_def split: if_splits option.splits)
  show ?thesis
    using res by (auto simp add: d' map_of_create_displays_old map_of_create_displays_new)
qed

lemma dev_once_eq:
  "dev_once = (newDrmDevice 3)\<lparr>mCrtcs := [41, 42, 43],
      mDisplays := [(7, display 7 True False), (9, display 9 True True)]\<rparr>"
  by (simp add: dev_once_def update_def initialize_def env0_def newDrmDevice_def
      insert_display_def display_def)

text \<open>
  A second \<open>initialize\<close> whose query returns the engine 50 and the connectors 9 and 4:
  the displays 7 and 9 stay as refreshed, display 4 is new, the pool is \<open>[50]\<close>.
\<close>

theorem initialize_again_keeps_witness:
  "initialize env1 dev_once =
     (True, dev_once\<lparr>mCrtcs := [50],
        mDisplays := [(4, display 4 False False), (7, display 7 True False),
                      (9, display 9 True True)]\<rparr>)"
  using initialize_again_keeps [of env1 dev_once]
  by (simp add: dev_once_eq initialize_def insert_display_def env1_def env0_def
      newDrmDevice_def display_def)

text \<open>
  C9 as stated fails: after a first \<open>initialize\<close> and a refresh, display 9 is connected
  and internal. A second \<open>initialize\<close> succeeds and its query returns connector 9
  again, but the entry under key 9 is still the refreshed display, not the display newly
  constructed for connector 9.
\<close>

theorem initialize_again_no_overwrite:
  "fst (initialize env0 dev_once) = True
   \<and> map_of (mDisplays dev_once) 9 = Some (display 9 True True)
   \<and> map_of (mDisplays (snd (initialize env0 dev_once))) 9 = Some (display 9 True True)
   \<and> make_display env0 9 = display 9 False False
   \<and> display 9 False False \<noteq> display 9 True True"
  by (simp add: dev_once_eq initialize_def insert_display_def env0_def newDrmDevice_def
      display_def)

section \<open>Properties of the lookup\<close>

lemma find_key_map_of:
  "find (\<lambda>(c, x). c = key) ds = (case map_of ds key of None \<Rightarrow> None | Some x \<Rightarrow> Some (key, x))"
  by (induction ds) auto

lemma map_of_Some_key: "map_of ds c = Some x \<Longrightarrow> c \<in> fst ` set ds"
  by (metis domI dom_map_of_conv_image_fst)

text \<open>
  C10. \<open>getConnectedDisplay c\<close> returns a display exactly when the registry holds that
  display under the key \<open>c\<close> and the display is connected; it returns the null pointer
  exactly when \<open>c\<close> is no key of the registry or the display under \<open>c\<close> is not connected;
  and the object is the same after the call.
\<close>

theorem getConnectedDisplay_registered:
  "(\<forall>x. fst (getConnectedDisplay c d) = Some x \<longleftrightarrow>
          map_of (mDisplays d) c = Some x \<and> connected x)
   \<and> (fst (getConnectedDisplay c d) = None \<longleftrightarrow>
          c \<notin> fst ` set (mDisplays d) \<or> (\<exists>x. map_of (mDisplays d) c = Some x \<and> \<not> connected x))
   \<and> snd (getConnectedDisplay c d) = d"
  by (auto simp add: getConnectedDisplay_def find_key_map_of map_of_eq_None_iff
      split: option.splits dest: map_of_Some_key)

text \<open>
  Display 7 is registered and connected, display 8 is registered and not connected, and
  5 is no key.
\<close>

theorem getConnectedDisplay_registered_witness:
  "getConnectedDisplay 7 (dev_displays displays3)
     = (Some (display 7 True False), dev_displays displays3)
   \<and> getConnectedDisplay 8 (dev_displays displays3) = (None, dev_displays displays3)
   \<and> getConnectedDisplay 5 (dev_displays displays3) = (None, dev_displays displays3)"
  using getConnectedDisplay_registered [of 7 "dev_displays displays3"]
    getConnectedDisplay_registered [of 8 "dev_displays displays3"]
    getConnectedDisplay_registered [of 5 "dev_displays displays3"]
  by (simp add: getConnectedDisplay_def dev_displays_def displays3_def display_def
      newDrmDevice_def)

section \<open>Properties of enable and reportExternal\<close>

lemma find_filter_hd:
  "find P xs = (case filter P xs of [] \<Rightarrow> None | x # _ \<Rightarrow> Some x)"
  by (induction xs) auto

lemma mPrimaryDisplay_update: "mPrimaryDisplay (update k d) = mPrimaryDisplay d"
  by (simp add: update_def)

lemma report_first_connected_none:
  "\<forall>(c, x) \<in> set ds. \<not> connected x \<Longrightarrow> report_first_connected ds p = ([], p)"
  by (induction ds) auto

lemma report_first_connected_first:
  "\<forall>(c, x) \<in> set xs. \<not> connected x \<Longrightarrow> connected a \<Longrightarrow>
     report_first_connected (xs @ (ca, a) # rest) p = ([ca], id_of a)"
  by (induction xs) auto

lemma report_others_append:
  "report_others p (xs @ ys) = report_others p xs @ report_others p ys"
  by (induction xs) auto

lemma report_others_none:
  "\<forall>(c, x) \<in> set ds. \<not> connected x \<Longrightarrow> report_others p ds = []"
  by (induction ds) auto

lemma update_idle: "update env_idle (dev_displays ds) = dev_displays ds"
  by (simp add: update_def env_idle_def dev_displays_def)

text \<open>
  The registry that the three claims below speak of is the registry as \<open>enable\<close>
  selects from it: after the refresh that \<open>enable\<close> starts with.
\<close>

text \<open>
  C5. If exactly one entry of the registry is a display that is connected and internal,
  \<open>enable\<close> calls \<open>report\<close> on that display and on no other, and the primary marker is
  the identifier of that display afterwards.
\<close>

theorem enable_reports_internal:
  assumes "filter (\<lambda>(c, x). connected x \<and> internal x) (mDisplays (update k d)) = [(c, x)]"
  shows "fst (enable k callback d) = [c] \<and> mPrimaryDisplay (snd (enable k callback d)) = id_of x"
proof -
  from assms have "find (\<lambda>(c, x). connected x \<and> internal x) (mDisplays (update k d)) = Some (c, x)"
    by (simp add: find_filter_hd)
  then show ?thesis
    by (simp add: enable_def Let_def)
qed

text \<open>Of the connected displays 7 and 9, display 9 is the internal one.\<close>

theorem enable_reports_internal_witness:
  "filter (\<lambda>(c, x). connected x \<and> internal x)
       (mDisplays (update env_idle (dev_displays displays3)))
     = [(9, display 9 True True)]
   \<and> fst (enable env_idle (Some 1) (dev_displays displays3)) = [9]
   \<and> mPrimaryDisplay (snd (enable env_idle (Some 1) (dev_displays displays3))) = 9"
  using enable_reports_internal
    [of env_idle "dev_displays displays3" 9 "display 9 True True" "Some 1"]
  by (simp add: update_idle) (simp add: dev_displays_def displays3_def display_def)

text \<open>
  C6. The registry holds no internal display, and its connected displays are A and, later
  in iteration order, B; the identifier of A is not 0, the value of an absent marker,
  and B has another identifier than A. Then \<open>enable\<close> reports only A and sets the primary
  marker to the identifier of A; \<open>reportExternal\<close>, called next, reports only B and
  leaves the marker 0.
\<close>

theorem enable_then_reportExternal:
  assumes ds: "mDisplays (update k d) = xs @ (ca, a) # ys @ (cb, b) # zs"
    and no_internal: "\<forall>(c, x) \<in> set (mDisplays (update k d)). \<not> internal x"
    and a: "connected a" and b: "connected b"
    and others: "\<forall>(c, x) \<in> set (xs @ ys @ zs). \<not> connected x"
    and ids: "id_of a \<noteq> 0" "id_of b \<noteq> id_of a"
  shows "fst (enable k callback d) = [ca]
     \<and> mPrimaryDisplay (snd (enable k callback d)) = id_of a
     \<and> fst (reportExternal (snd (enable k callback d))) = [cb]
     \<and> mPrimaryDisplay (snd (reportExternal (snd (enable k callback d)))) = 0"
proof -
  from no_internal
  have "find (\<lambda>(c, x). connected x \<and> internal x) (mDisplays (update k d)) = None"
    by (auto simp add: find_None_iff)
  moreover from others a
  have "report_first_connected (mDisplays (update k d)) p = ([ca], id_of a)" for p
    unfolding ds by (intro report_first_connected_first) auto
  ultimately have en: "enable k callback d
      = ([ca], (update k d)\<lparr>mCallback := callback, mPrimaryDisplay := id_of a,
                             mHotplugThread := True\<rparr>)"
    by (simp add: enable_def Let_def)
  from others have "report_others (id_of a) xs = []" "report_others (id_of a) ys = []"
    "report_others (id_of a) zs = []"
    by (auto intro!: report_others_none)
  with a b ids have "report_others (id_of a) (mDisplays (update k d)) = [cb]"
    by (simp add: ds report_others_append)
  with ids show ?thesis
    by (simp add: en reportExternal_def)
qed

text \<open>The connected displays 7 and 9, with the disconnected display 8 between them.\<close>

theorem enable_then_reportExternal_witness:
  "fst (enable env_idle (Some 1) (dev_displays displays_ab)) = [7]
   \<and> mPrimaryDisplay (snd (enable env_idle (Some 1) (dev_displays displays_ab))) = 7
   \<and> fst (reportExternal (snd (enable env_idle (Some 1) (dev_displays displays_ab)))) = [9]
   \<and> mPrimaryDisplay
         (snd (reportExternal (snd (enable env_idle (Some 1) (dev_displays displays_ab)))))
       = 0"
  using enable_then_reportExternal
    [of env_idle "dev_displays displays_ab" "[]" 7 "display 7 True False"
      "[(8, display 8 False False)]" 9 "display 9 True False" "[]" "Some 1"]
  by (simp add: update_idle) (simp add: dev_displays_def displays_ab_def display_def)

text \<open>
  C7. If no display of the registry is connected, \<open>enable\<close> calls no \<open>report\<close> and the
  primary marker keeps its value, so an absent marker stays absent and the
  \<open>reportExternal\<close> that follows does nothing. Whenever the marker is absent,
  \<open>reportExternal\<close> reports nothing and leaves the object unchanged.
\<close>

theorem enable_no_display_connected:
  assumes "\<forall>(c, x) \<in> set (mDisplays (update k d)). \<not> connected x"
  shows "fst (enable k callback d) = []
     \<and> mPrimaryDisplay (snd (enable k callback d)) = mPrimaryDisplay d
     \<and> (mPrimaryDisplay d = 0 \<longrightarrow>
          reportExternal (snd (enable k callback d)) = ([], snd (enable k callback d)))
     \<and> (\<forall>d'. mPrimaryDisplay d' = 0 \<longrightarrow> reportExternal d' = ([], d'))"
proof -
  from assms have "find (\<lambda>(c, x). connected x \<and> internal x) (mDisplays (update k d)) = None"
    by (auto simp add: find_None_iff)
  moreover from assms
  have "report_first_connected (mDisplays (update k d)) p = ([], p)" for p
    by (rule report_first_connected_none)
  ultimately have en: "enable k callback d
      = ([], (update k d)\<lparr>mCallback := callback, mPrimaryDisplay := mPrimaryDisplay d,
                           mHotplugThread := True\<rparr>)"
    by (simp add: enable_def Let_def mPrimaryDisplay_update)
  show ?thesis
    by (simp add: en reportExternal_def)
qed

text \<open>Two displays, neither connected, on an object as constructed.\<close>

theorem enable_no_display_connected_witness:
  "fst (enable env_idle (Some 1) (dev_displays displays_off)) = []
   \<and> mPrimaryDisplay (snd (enable env_idle (Some 1) (dev_displays displays_off))) = 0
   \<and> reportExternal (snd (enable env_idle (Some 1) (dev_displays displays_off)))
       = ([], snd (enable env_idle (Some 1) (dev_displays displays_off)))"
  using enable_no_display_connected [of env_idle "dev_displays displays_off" "Some 1"]
  by (simp add: update_idle)
    (simp add: dev_displays_def displays_off_def display_def newDrmDevice_def)

end
